theory Spec2Isabelle
  imports Complex_Main "HOL-Library.Word"
begin

section \<open>Python values, objects and exceptions\<close>

text \<open>
  The remote SDK objects are probed by attribute name (\<^verbatim>\<open>getattr\<close>, \<^verbatim>\<open>hasattr\<close>), so an
  object is an attribute table together with the text \<^verbatim>\<open>str(obj)\<close> renders. The attribute
  values the code inspects are \<^verbatim>\<open>None\<close>, booleans and strings.
\<close>

datatype pyval = PNone | PBool bool | PStr string

datatype obj = Obj (attrs: "(string \<times> pyval) list") (repr: string)

datatype exn_class =
  OSError | JSONDecodeError | UnicodeDecodeError | AttributeError | KeyError
  | RuntimeError | ValueError | OverflowError | APIError

text \<open>
  An exception has its class, its message and the \<^verbatim>\<open>__cause__\<close> that
  \<^verbatim>\<open>raise ... from ...\<close> sets. All classes above derive from \<^verbatim>\<open>Exception\<close>;
  \<^verbatim>\<open>IOError\<close> is \<^verbatim>\<open>OSError\<close>, and \<^verbatim>\<open>PermissionError\<close>, \<^verbatim>\<open>FileNotFoundError\<close>
  and \<^verbatim>\<open>IsADirectoryError\<close> are \<^verbatim>\<open>OSError\<close>s. \<^verbatim>\<open>UnicodeDecodeError\<close> derives from
  \<^verbatim>\<open>ValueError\<close> and is neither an \<^verbatim>\<open>OSError\<close> nor a \<^verbatim>\<open>JSONDecodeError\<close>.
\<close>

datatype exn = Exn (exn_class: exn_class) (message: string) (cause: "exn option")

datatype 'a outcome = Returned 'a | Raised exn | StillProcessing

definition hasattr :: "obj \<Rightarrow> string \<Rightarrow> bool" where
  "hasattr ob a = (map_of (attrs ob) a \<noteq> None)"

definition getattr :: "obj \<Rightarrow> string \<Rightarrow> pyval \<Rightarrow> pyval" where
  "getattr ob a d = (case map_of (attrs ob) a of None \<Rightarrow> d | Some v \<Rightarrow> v)"

definition attr :: "obj \<Rightarrow> string \<Rightarrow> exn + pyval" where
  \<comment> \<open>plain attribute access \<^verbatim>\<open>ob.a\<close>\<close>
  "attr ob a = (case map_of (attrs ob) a of
                  None \<Rightarrow> Inl (Exn AttributeError a None)
                | Some v \<Rightarrow> Inr v)"

definition truthy :: "pyval \<Rightarrow> bool" where
  "truthy v = (case v of PNone \<Rightarrow> False | PBool b \<Rightarrow> b | PStr s \<Rightarrow> s \<noteq> [])"

definition py_or :: "pyval \<Rightarrow> pyval \<Rightarrow> pyval" where
  "py_or a b = (if truthy a then a else b)"

type_synonym dict = "(string \<times> pyval) list"

definition dict_get :: "dict \<Rightarrow> string \<Rightarrow> pyval" where
  \<comment> \<open>\<^verbatim>\<open>d.get(k)\<close>\<close>
  "dict_get d k = (case map_of d k of None \<Rightarrow> PNone | Some v \<Rightarrow> v)"

definition dict_item :: "dict \<Rightarrow> string \<Rightarrow> exn + pyval" where
  \<comment> \<open>\<^verbatim>\<open>d[k]\<close>\<close>
  "dict_item d k = (case map_of d k of None \<Rightarrow> Inl (Exn KeyError k None) | Some v \<Rightarrow> Inr v)"

section \<open>Observable effects\<close>

text \<open>
  A run is observed through the events it produces, in order: log records (level and the
  pieces of the formatted message), sleeps, the calls to the remote service, the write of
  the tracking file, and the calls of \<^verbatim>\<open>upload_file\<close> and \<^verbatim>\<open>ask_question\<close> made by their
  wrappers.
\<close>

datatype level = DEBUG | INFO | WARNING | ERROR

datatype frag = Txt string | Num int | Val pyval | Exc exn | Flt real

datatype event =
  Log level "frag list"
  | Sleep real
  | FilesUpload string
  | FilesGet pyval
  | ImportFile pyval pyval
  | OperationsGet pyval
  | WriteTracking
  | CallUploadFile string
  | CallAskQuestion string pyval


fun sleep_total :: "event list \<Rightarrow> real" where
  "sleep_total [] = 0"
| "sleep_total (Sleep d # es) = d + sleep_total es"
| "sleep_total (e # es) = sleep_total es"

section \<open>Paths and the file system\<close>

text \<open>
  A path is the text \<^verbatim>\<open>str(Path(s))\<close> gives (POSIX, no trailing slash). The file system
  maps a path to what \<^verbatim>\<open>stat\<close> finds there: a directory (readable or not, with the names
  it lists, in listing order), a regular file (readable or not, with its bytes) or
  something else (a device, a socket).
\<close>

type_synonym byte = "8 word"

datatype node = Dir bool "string list" | File bool "byte list" | Special

type_synonym filesystem = "string \<Rightarrow> node option"

definition lower_char :: "char \<Rightarrow> char" where
  "lower_char c =
     (case map_of (zip ''ABCDEFGHIJKLMNOPQRSTUVWXYZ'' ''abcdefghijklmnopqrstuvwxyz'') c of
        Some d \<Rightarrow> d | None \<Rightarrow> c)"

definition lower :: "string \<Rightarrow> string" where
  "lower s = map lower_char s"

definition path_name :: "string \<Rightarrow> string" where
  \<comment> \<open>\<^verbatim>\<open>Path.name\<close>: the final component\<close>
  "path_name p = rev (takeWhile (\<lambda>c. c \<noteq> CHR ''/'') (rev p))"

definition name_suffix :: "string \<Rightarrow> string" where
  \<comment> \<open>\<^verbatim>\<open>i = name.rfind('.'); name[i:] if 0 < i < len(name) - 1 else ''\<close>\<close>
  "name_suffix name =
     (let ext = rev (takeWhile (\<lambda>c. c \<noteq> CHR ''.'') (rev name)) in
      if CHR ''.'' \<in> set name \<and> length ext + 1 < length name \<and> ext \<noteq> []
      then CHR ''.'' # ext else [])"

definition path_suffix :: "string \<Rightarrow> string" where
  "path_suffix p = name_suffix (path_name p)"

definition path_join :: "string \<Rightarrow> string \<Rightarrow> string" where
  \<comment> \<open>\<^verbatim>\<open>path / name\<close>\<close>
  "path_join d n = d @ ''/'' @ n"

definition path_exists :: "filesystem \<Rightarrow> string \<Rightarrow> bool" where
  "path_exists fs p = (fs p \<noteq> None)"

definition is_file :: "filesystem \<Rightarrow> string \<Rightarrow> bool" where
  "is_file fs p = (case fs p of Some (File r bs) \<Rightarrow> True | _ \<Rightarrow> False)"

definition is_dir :: "filesystem \<Rightarrow> string \<Rightarrow> bool" where
  "is_dir fs p = (case fs p of Some (Dir r ns) \<Rightarrow> True | _ \<Rightarrow> False)"

definition st_size :: "filesystem \<Rightarrow> string \<Rightarrow> nat" where
  "st_size fs p = (case fs p of Some (File r bs) \<Rightarrow> length bs | _ \<Rightarrow> 0)"

definition access_R_OK :: "filesystem \<Rightarrow> string \<Rightarrow> bool" where
  "access_R_OK fs p = (case fs p of Some (Dir r ns) \<Rightarrow> r | Some (File r bs) \<Rightarrow> r | _ \<Rightarrow> False)"

section \<open>utils/validators.py\<close>

definition validate_pdf_file :: "filesystem \<Rightarrow> string \<Rightarrow> bool \<times> string option" where
  "validate_pdf_file fs file_path =
     (if \<not> path_exists fs file_path then
        (False, Some (''File does not exist: '' @ file_path))
      else if \<not> is_file fs file_path then
        (False, Some (''Path is not a file: '' @ file_path))
      else if lower (path_suffix file_path) \<noteq> ''.pdf'' then
        (False, Some (''File is not a PDF: '' @ file_path))
      else if st_size fs file_path = 0 then
        (False, Some (''File is empty: '' @ file_path))
      else (True, None))"

definition validate_directory :: "filesystem \<Rightarrow> string \<Rightarrow> bool \<times> string option" where
  "validate_directory fs dir_path =
     (if \<not> path_exists fs dir_path then
        (False, Some (''Directory does not exist: '' @ dir_path))
      else if \<not> is_dir fs dir_path then
        (False, Some (''Path is not a directory: '' @ dir_path))
      else if \<not> access_R_OK fs dir_path then
        (False, Some (''Directory is not readable: '' @ dir_path))
      else (True, None))"

subsection \<open>The validator's contract, in the specification's words\<close>





section \<open>src/file_manager.py: the tracking store\<close>

text \<open>
  What a \<^verbatim>\<open>FileManager\<close> sees of the world: the files on disk, \<^verbatim>\<open>Path.resolve\<close>, the
  SHA-256 hex digest of a byte sequence (\<^verbatim>\<open>hashlib\<close>), the current time as
  \<^verbatim>\<open>time.strftime\<close> prints it, whether writing the tracking file fails (with an
  \<^verbatim>\<open>OSError\<close>), and the remote service. A remote call either raises or returns an object;
  \<^verbatim>\<open>files.get\<close> is given the number of polls made before it and \<^verbatim>\<open>operations.get\<close> the
  seconds waited so far, so that the service may answer each poll differently.
  \<^verbatim>\<open>has_operations\<close> is \<^verbatim>\<open>hasattr(self.client, 'operations')\<close>.
\<close>

record env =
  disk :: filesystem
  resolve :: "string \<Rightarrow> string"
  sha256_hex :: "byte list \<Rightarrow> string"
  strftime_now :: string
  write_error :: "string option"
  files_upload :: "string \<Rightarrow> exn + obj"
  files_get :: "nat \<Rightarrow> pyval \<Rightarrow> exn + obj"
  import_file :: "pyval \<Rightarrow> pyval \<Rightarrow> exn + obj"
  has_operations :: bool
  operations_get :: "nat \<Rightarrow> pyval \<Rightarrow> exn + obj"

text \<open>The fields of the instance that change or are consulted: \<^verbatim>\<open>_tracked_files\<close> and
  \<^verbatim>\<open>file_search_store\<close> (\<^verbatim>\<open>None\<close> when the store could not be initialised).\<close>

record fm_state =
  tracked_files :: "string \<rightharpoonup> dict"
  file_search_store :: "obj option"

text \<open>
  The persisted tracking file: absent, or present with what \<^verbatim>\<open>open(..., 'r')\<close> followed by
  \<^verbatim>\<open>json.load\<close> does on it: an \<^verbatim>\<open>OSError\<close> (unreadable, a directory), a
  \<^verbatim>\<open>UnicodeDecodeError\<close> (bytes that are not text in the default encoding), a
  \<^verbatim>\<open>JSONDecodeError\<close> (text that is not JSON), or the decoded map.
\<close>

datatype tracking_file = Absent | Present "exn + (string \<rightharpoonup> dict)"

definition load_tracking :: "tracking_file \<Rightarrow> event list \<times> (string \<rightharpoonup> dict) outcome" where
  "load_tracking tf =
     (case tf of
        Absent \<Rightarrow> ([], Returned Map.empty)
      | Present (Inr data) \<Rightarrow> ([], Returned data)
      | Present (Inl e) \<Rightarrow>
          (if exn_class e \<in> set [JSONDecodeError, OSError] then
             ([Log WARNING [Txt ''Failed to load tracking file: '', Exc e,
                            Txt ''. Starting fresh.'']],
              Returned Map.empty)
           else ([], Raised e)))"

definition save_tracking :: "env \<Rightarrow> event list" where
  "save_tracking E =
     (case write_error E of
        None \<Rightarrow> [WriteTracking]
      | Some m \<Rightarrow>
          [Log ERROR [Txt ''Failed to save tracking file: '', Exc (Exn OSError m None)]])"

function read_blocks :: "nat \<Rightarrow> byte list \<Rightarrow> byte list list" where
  \<comment> \<open>\<^verbatim>\<open>iter(lambda: f.read(n), b"")\<close>\<close>
  "read_blocks n bs = (if n = 0 \<or> bs = [] then [] else take n bs # read_blocks n (drop n bs))"
  by pat_completeness auto
termination
  by (relation "measure (\<lambda>(n, bs). length bs)") auto

definition compute_file_hash :: "env \<Rightarrow> string \<Rightarrow> exn + string" where
  "compute_file_hash E file_path =
     (case disk E file_path of
        Some (File True bs) \<Rightarrow> Inr (sha256_hex E (concat (read_blocks 4096 bs)))
      | _ \<Rightarrow> Inl (Exn OSError file_path None))"

definition is_file_tracked :: "env \<Rightarrow> fm_state \<Rightarrow> string \<Rightarrow> exn + bool" where
  "is_file_tracked E st file_path =
     (case compute_file_hash E file_path of
        Inl e \<Rightarrow> Inl e
      | Inr file_hash \<Rightarrow>
          (let file_key = resolve E file_path in
           case tracked_files st file_key of
             None \<Rightarrow> Inr False
           | Some ent \<Rightarrow>
               (let tracked_hash = dict_get ent ''hash'' in
                if tracked_hash = PStr file_hash then Inr True else Inr False)))"

section \<open>src/file_manager.py: uploading\<close>

text \<open>Lines 177--185: poll while the file is processing. The loop has no bound of its
  own; \<open>fuel\<close> bounds the polls the model follows, and \<open>StillProcessing\<close> is the
  outcome when the file is still processing after that many.\<close>

fun wait_processing ::
  "nat \<Rightarrow> env \<Rightarrow> nat \<Rightarrow> obj \<Rightarrow> pyval \<Rightarrow> event list \<times> (obj \<times> pyval) outcome" where
  "wait_processing 0 E k uploaded_file file_state =
     (if file_state \<in> set [PStr ''PROCESSING'', PStr ''processing'']
      then ([], StillProcessing)
      else ([], Returned (uploaded_file, file_state)))"
| "wait_processing (Suc fuel) E k uploaded_file file_state =
     (if file_state \<in> set [PStr ''PROCESSING'', PStr ''processing''] then
        (case attr uploaded_file ''name'' of
           Inl e \<Rightarrow> ([Sleep 2], Raised e)
         | Inr nm \<Rightarrow>
             (case files_get E k nm of
                Inl e \<Rightarrow> ([Sleep 2, FilesGet nm], Raised e)
              | Inr uploaded_file' \<Rightarrow>
                  (let (evs, r) =
                         wait_processing fuel E (Suc k) uploaded_file'
                           (py_or (getattr uploaded_file' ''state'' PNone)
                                  (getattr uploaded_file' ''processing_state'' PNone))
                   in ([Sleep 2, FilesGet nm] @ evs, r))))
      else ([], Returned (uploaded_file, file_state)))"

text \<open>Lines 210--221: what one look at the import operation decides.\<close>

datatype loop_ctl = Break | ReturnNone | Continue

definition import_failed_log :: "obj \<Rightarrow> event" where
  "import_failed_log operation =
     Log ERROR [Txt ''File import failed with status '',
                Val (getattr operation ''status'' (PStr [])), Txt '': '',
                Val (getattr operation ''error_message''
                       (getattr operation ''error'' (PStr ''Unknown error'')))]"

definition check_operation :: "obj \<Rightarrow> loop_ctl" where
  "check_operation operation =
     (if hasattr operation ''done'' then
        (if truthy (getattr operation ''done'' PNone) then Break else Continue)
      else if hasattr operation ''status'' then
        (let status = getattr operation ''status'' (PStr []) in
         if status \<in> set [PStr ''DONE'', PStr ''done'', PStr ''SUCCESS'', PStr ''success'']
         then Break
         else if status \<in> set [PStr ''FAILED'', PStr ''failed'', PStr ''ERROR'', PStr ''error'']
         then ReturnNone
         else Continue)
      else Continue)"

text \<open>Lines 204--237: the import wait loop, from \<open>wait_time\<close> on. It yields the operation
  it ended with, or \<open>None\<close> where the source returns \<^verbatim>\<open>None\<close> from inside the loop.\<close>

function import_wait :: "env \<Rightarrow> pyval \<Rightarrow> nat \<Rightarrow> obj \<Rightarrow> event list \<times> obj option" where
  "import_wait E operation_name wait_time operation =
     (if wait_time < 300 then
        (case check_operation operation of
           Break \<Rightarrow> ([], Some operation)
         | ReturnNone \<Rightarrow> ([import_failed_log operation], None)
         | Continue \<Rightarrow>
             (if has_operations E \<and> truthy operation_name then
                (case operations_get E (wait_time + 2) operation_name of
                   Inl e \<Rightarrow>
                     ([Sleep 2, OperationsGet operation_name,
                       Log DEBUG [Txt ''Could not refresh operation status: '', Exc e]],
                      Some operation)
                 | Inr operation' \<Rightarrow>
                     (let (evs, r) = import_wait E operation_name (wait_time + 2) operation'
                      in ([Sleep 2, OperationsGet operation_name] @ evs, r)))
              else
                ([Sleep 2,
                  Log WARNING
                    [Txt ''Operations API not available, assuming import is in progress'']],
                 Some operation)))
      else ([], Some operation))"
  by pat_completeness auto
termination
  by (relation "measure (\<lambda>(E, n, w, operation). 300 - w)") auto

text \<open>Lines 193--254: import of the uploaded file into the store. The boolean tells
  whether \<^verbatim>\<open>upload_file\<close> goes on (\<open>False\<close>: it returns \<^verbatim>\<open>None\<close>). Whatever is raised in
  here is caught at line 253 and only logged.\<close>

definition import_into_store :: "env \<Rightarrow> obj option \<Rightarrow> obj \<Rightarrow> event list \<times> bool" where
  "import_into_store E store uploaded_file =
     (case store of
        None \<Rightarrow> ([], True)
      | Some s \<Rightarrow>
          (let importing = Log INFO [Txt ''Importing file into File Search Store...''];
               caught = (\<lambda>e. Log WARNING [Txt ''Failed to import file into store: '', Exc e,
                                 Txt ''. File uploaded but may not be searchable.''])
           in
           case attr s ''name'' of
             Inl e \<Rightarrow> ([importing, caught e], True)
           | Inr store_name \<Rightarrow>
          (case attr uploaded_file ''name'' of
             Inl e \<Rightarrow> ([importing, caught e], True)
           | Inr file_name \<Rightarrow>
          (case import_file E store_name file_name of
             Inl e \<Rightarrow> ([importing, ImportFile store_name file_name, caught e], True)
           | Inr operation0 \<Rightarrow>
               (let operation_name =
                      py_or (getattr operation0 ''name'' PNone) (PStr (repr operation0));
                    (evs, r) = import_wait E operation_name 0 operation0;
                    pre = [importing, ImportFile store_name file_name,
                           Log INFO [Txt ''Waiting for file import to complete...'']] @ evs
                in
                case r of
                  None \<Rightarrow> (pre, False)
                | Some operation \<Rightarrow>
                    (if hasattr operation ''error'' \<and> truthy (getattr operation ''error'' PNone)
                     then
                       (pre @ [Log ERROR [Txt ''File import failed: '',
                                          Val (getattr operation ''error'' PNone)]], False)
                     else if hasattr operation ''status'' \<and>
                             getattr operation ''status'' (PStr []) \<in>
                               set [PStr ''FAILED'', PStr ''failed'', PStr ''ERROR'', PStr ''error'']
                     then (pre @ [import_failed_log operation], False)
                     else
                       (pre @ [Log INFO [Txt ''File import operation completed successfully''],
                               Log INFO [Txt ''File successfully imported into File Search Store'']],
                        True)))))))"

text \<open>Lines 256--277: record the file and return its name and URI.\<close>

definition track_file ::
  "env \<Rightarrow> fm_state \<Rightarrow> string \<Rightarrow> obj \<Rightarrow> event list \<times> fm_state \<times> dict option outcome" where
  "track_file E st file_path uploaded_file =
     (case compute_file_hash E file_path of
        Inl e \<Rightarrow> ([], st, Raised e)
      | Inr file_hash \<Rightarrow>
          (let file_key = resolve E file_path;
               file_name = py_or (getattr uploaded_file ''name'' PNone)
                                 (PStr (repr uploaded_file));
               file_uri = py_or (getattr uploaded_file ''uri'' PNone)
                            (py_or (getattr uploaded_file ''file_uri'' PNone) file_name)
           in
           case (case file_search_store st of
                   None \<Rightarrow> Inr PNone
                 | Some s \<Rightarrow> attr s ''name'') of
             Inl e \<Rightarrow> ([], st, Raised e)
           | Inr store_name \<Rightarrow>
               (save_tracking E @
                  [Log INFO [Txt ''Successfully uploaded: '', Txt (path_name file_path),
                             Txt '' (URI: '', Val file_uri, Txt '')'']],
                st\<lparr>tracked_files := (tracked_files st)(file_key \<mapsto>
                     [(''name'', file_name), (''uri'', file_uri), (''hash'', PStr file_hash),
                      (''upload_date'', PStr (strftime_now E)),
                      (''original_path'', PStr file_path),
                      (''store_name'', store_name)])\<rparr>,
                Returned (Some [(''name'', file_name), (''uri'', file_uri)]))))"

text \<open>Lines 177--180: the state read off the object the upload returned.\<close>

definition first_file_state :: "obj \<Rightarrow> pyval" where
  "first_file_state uploaded_file =
     (let file_state = getattr uploaded_file ''state'' PNone in
      if file_state = PNone then getattr uploaded_file ''processing_state'' PNone
      else file_state)"

text \<open>Lines 157--277: the body of the \<^verbatim>\<open>try\<close>. The progress bar is display only, so both
  branches of \<^verbatim>\<open>show_progress\<close> are the one upload call.\<close>

definition upload_and_track ::
  "nat \<Rightarrow> env \<Rightarrow> fm_state \<Rightarrow> string \<Rightarrow> event list \<times> fm_state \<times> dict option outcome" where
  "upload_and_track fuel E st file_path =
     (let uploading = Log INFO [Txt ''Uploading file: '', Txt (path_name file_path)] in
      case files_upload E file_path of
        Inl e \<Rightarrow> ([uploading, FilesUpload file_path], st, Raised e)
      | Inr uploaded_file0 \<Rightarrow>
          (let (evs_p, r) = wait_processing fuel E 0 uploaded_file0
                               (first_file_state uploaded_file0);
               pre = [uploading, FilesUpload file_path,
                      Log INFO [Txt ''Waiting for file to be processed...'']] @ evs_p
           in
           case r of
             StillProcessing \<Rightarrow> (pre, st, StillProcessing)
           | Raised e \<Rightarrow> (pre, st, Raised e)
           | Returned (uploaded_file, file_state) \<Rightarrow>
               (if file_state \<in> set [PStr ''FAILED'', PStr ''failed''] then
                  (pre @ [Log ERROR [Txt ''File processing failed: '',
                            Val (py_or (getattr uploaded_file ''error'' PNone)
                                   (getattr uploaded_file ''error_message''
                                      (PStr ''Unknown error'')))]],
                   st, Returned None)
                else
                  (let (evs_i, go_on) =
                         import_into_store E (file_search_store st) uploaded_file
                   in
                   if \<not> go_on then (pre @ evs_i, st, Returned None)
                   else
                     (let (evs_t, st', r') = track_file E st file_path uploaded_file
                      in (pre @ evs_i @ evs_t, st', r'))))))"

definition upload_file ::
  "nat \<Rightarrow> env \<Rightarrow> fm_state \<Rightarrow> string \<Rightarrow> event list \<times> fm_state \<times> dict option outcome" where
  "upload_file fuel E st file_path =
     (case validate_pdf_file (disk E) file_path of
        (False, error_msg) \<Rightarrow>
          ([Log ERROR [Val (case error_msg of None \<Rightarrow> PNone | Some m \<Rightarrow> PStr m)]],
           st, Returned None)
      | (True, error_msg) \<Rightarrow>
          (case is_file_tracked E st file_path of
             Inl e \<Rightarrow> ([], st, Raised e)
           | Inr True \<Rightarrow>
               (let already = [Log INFO [Txt ''File already uploaded: '',
                                         Txt (path_name file_path)]];
                    file_key = resolve E file_path
                in
                case tracked_files st file_key of
                  None \<Rightarrow> (already, st, Raised (Exn KeyError file_key None))
                | Some ent \<Rightarrow>
                    (case dict_item ent ''name'' of
                       Inl e \<Rightarrow> (already, st, Raised e)
                     | Inr nm \<Rightarrow>
                         (case dict_item ent ''uri'' of
                            Inl e \<Rightarrow> (already, st, Raised e)
                          | Inr uri \<Rightarrow>
                              (already, st, Returned (Some [(''name'', nm), (''uri'', uri)])))))
           | Inr False \<Rightarrow>
               (case upload_and_track fuel E st file_path of
                  (evs, st', Raised e) \<Rightarrow>
                    (evs @ [Log ERROR [Txt ''Failed to upload file '',
                                       Txt (path_name file_path), Txt '': '', Exc e]],
                     st', Returned None)
                | (evs, st', r) \<Rightarrow> (evs, st', r))))"

section \<open>src/file_manager.py: uploading a directory\<close>

definition ends_with :: "string \<Rightarrow> string \<Rightarrow> bool" where
  "ends_with sfx s = (length sfx \<le> length s \<and> drop (length s - length sfx) s = sfx)"

text \<open>\<^verbatim>\<open>list(path.glob("*.pdf"))\<close>: the entries of the directory itself whose name matches,
  compared case-sensitively as on POSIX, each joined to the directory.\<close>

definition glob_pdf :: "filesystem \<Rightarrow> string \<Rightarrow> string list" where
  "glob_pdf fs d =
     (case fs d of
        Some (Dir True names) \<Rightarrow> map (path_join d) (filter (ends_with ''.pdf'') names)
      | _ \<Rightarrow> [])"

text \<open>Lines 310--313: the loop over the files found.\<close>

fun upload_each ::
  "nat \<Rightarrow> env \<Rightarrow> fm_state \<Rightarrow> string list \<Rightarrow> dict list
     \<Rightarrow> event list \<times> fm_state \<times> dict list outcome" where
  "upload_each fuel E st [] uploaded_files = ([], st, Returned uploaded_files)"
| "upload_each fuel E st (pdf_file # rest) uploaded_files =
     (case upload_file fuel E st pdf_file of
        (evs, st', Returned result) \<Rightarrow>
          (let (evs', r) =
                 upload_each fuel E st' rest
                   (case result of
                      None \<Rightarrow> uploaded_files
                    | Some d \<Rightarrow> uploaded_files @ [d])
           in (CallUploadFile pdf_file # evs @ evs', r))
      | (evs, st', Raised e) \<Rightarrow> (CallUploadFile pdf_file # evs, st', Raised e)
      | (evs, st', StillProcessing) \<Rightarrow> (CallUploadFile pdf_file # evs, st', StillProcessing))"

definition upload_directory ::
  "nat \<Rightarrow> env \<Rightarrow> fm_state \<Rightarrow> string \<Rightarrow> event list \<times> fm_state \<times> dict list outcome" where
  "upload_directory fuel E st directory_path =
     (case validate_directory (disk E) directory_path of
        (False, error_msg) \<Rightarrow>
          ([Log ERROR [Val (case error_msg of None \<Rightarrow> PNone | Some m \<Rightarrow> PStr m)]],
           st, Returned [])
      | (True, error_msg) \<Rightarrow>
          (let pdf_files = glob_pdf (disk E) directory_path in
           if pdf_files = [] then
             ([Log WARNING [Txt ''No PDF files found in directory: '', Txt directory_path]],
              st, Returned [])
           else
             (let found = Log INFO [Txt ''Found '', Num (int (length pdf_files)),
                                    Txt '' PDF file(s) in '', Txt directory_path]
              in
              case upload_each fuel E st pdf_files [] of
                (evs, st', Returned uploaded_files) \<Rightarrow>
                  (found # evs @
                     [Log INFO [Txt ''Successfully uploaded '',
                                Num (int (length uploaded_files)), Txt ''/'',
                                Num (int (length pdf_files)), Txt '' file(s)'']],
                   st', Returned uploaded_files)
              | (evs, st', r) \<Rightarrow> (found # evs, st', r))))"

section \<open>src/rag_handler.py: the retry wrapper\<close>

fun str_nat :: "nat \<Rightarrow> string" where
  "str_nat n =
     (if n < 10 then [''0123456789'' ! n]
      else str_nat (n div 10) @ [''0123456789'' ! (n mod 10)])"

declare str_nat.simps [simp del]

definition str_int :: "int \<Rightarrow> string" where
  "str_int i = (if i < 0 then CHR ''-'' # str_nat (nat (- i)) else str_nat (nat i))"

text \<open>
  \<^verbatim>\<open>ask_question\<close> ends by returning the answer or by raising what the remote call or the
  extraction of the text raised. The wrapper only looks at that, so it is given as
  \<open>ask\<close>: the outcome of the call made in attempt number \<open>attempt\<close>. \<open>sleep\<close> is
  \<^verbatim>\<open>time.sleep\<close>: given a length it returns after that long (\<open>None\<close>) or raises. The call
  of line 157 stands in the \<^verbatim>\<open>except\<close> block, so what it raises leaves \<^verbatim>\<open>ask_with_retry\<close>
  at once. Lines 148--159 are the loop, from \<open>attempt\<close> on; line 161 is its last branch.
\<close>

function ask_attempts ::
  "(real \<Rightarrow> exn option) \<Rightarrow> (nat \<Rightarrow> string \<Rightarrow> pyval \<Rightarrow> exn + string) \<Rightarrow> string \<Rightarrow> pyval
     \<Rightarrow> int \<Rightarrow> real \<Rightarrow> nat \<Rightarrow> exn option \<Rightarrow> event list \<times> string outcome" where
  "ask_attempts sleep ask question store_name max_retries retry_delay attempt last_exception =
     (if int attempt < max_retries then
        (case ask attempt question store_name of
           Inr answer \<Rightarrow> ([CallAskQuestion question store_name], Returned answer)
         | Inl e \<Rightarrow>
             (if int attempt < max_retries - 1 then
                (let warning =
                       Log WARNING [Txt ''Attempt '', Num (int attempt + 1), Txt '' failed: '',
                                    Exc e, Txt ''. Retrying in '', Flt retry_delay,
                                    Txt ''s...'']
                 in
                 case sleep retry_delay of
                   Some sleep_error \<Rightarrow>
                     ([CallAskQuestion question store_name, warning], Raised sleep_error)
                 | None \<Rightarrow>
                     (let (evs, r) = ask_attempts sleep ask question store_name max_retries
                                       retry_delay (Suc attempt) (Some e)
                      in (CallAskQuestion question store_name # warning #
                            Sleep retry_delay # evs,
                          r)))
              else
                (let (evs, r) = ask_attempts sleep ask question store_name max_retries
                                  retry_delay (Suc attempt) (Some e)
                 in (CallAskQuestion question store_name #
                       Log ERROR [Txt ''All '', Num max_retries, Txt '' attempts failed''] #
                       evs,
                     r))))
      else
        ([], Raised (Exn RuntimeError
                       (''Failed to get response after '' @ str_int max_retries @ '' attempts'')
                       last_exception)))"
  by pat_completeness auto
termination
  by (relation "measure (\<lambda>(sl, ask, q, s, m, d, attempt, l). nat (m - int attempt))") auto

definition ask_with_retry ::
  "(real \<Rightarrow> exn option) \<Rightarrow> (nat \<Rightarrow> string \<Rightarrow> pyval \<Rightarrow> exn + string) \<Rightarrow> string \<Rightarrow> pyval
     \<Rightarrow> int \<Rightarrow> real \<Rightarrow> event list \<times> string outcome" where
  "ask_with_retry sleep ask question store_name max_retries retry_delay =
     ask_attempts sleep ask question store_name max_retries retry_delay 0 None"

text \<open>
  \<^verbatim>\<open>time.sleep\<close> as the standard library has it: a negative length raises \<^verbatim>\<open>ValueError\<close>, a
  length beyond what the platform's clock holds (\<open>limit\<close> seconds) raises
  \<^verbatim>\<open>OverflowError\<close>, and any other length is slept.
\<close>

definition time_sleep :: "real \<Rightarrow> real \<Rightarrow> exn option" where
  "time_sleep limit secs =
     (if secs < 0 then Some (Exn ValueError ''sleep length must be non-negative'' None)
      else if limit < secs then
        Some (Exn OverflowError ''timestamp out of range for platform time_t'' None)
      else None)"

section \<open>Reading a run\<close>

fun is_ask :: "event \<Rightarrow> bool" where
  "is_ask (CallAskQuestion q s) = True"
| "is_ask e = False"

fun is_log :: "event \<Rightarrow> bool" where
  "is_log (Log l m) = True"
| "is_log e = False"

definition unlogged :: "event list \<Rightarrow> event list" where
  "unlogged evs = filter (\<lambda>e. \<not> is_log e) evs"

text \<open>\<open>n\<close> calls of \<^verbatim>\<open>ask_question\<close> with one sleep of \<open>d\<close> between each two.\<close>

fun expected_calls :: "string \<Rightarrow> pyval \<Rightarrow> real \<Rightarrow> nat \<Rightarrow> event list" where
  "expected_calls q s d 0 = []"
| "expected_calls q s d (Suc 0) = [CallAskQuestion q s]"
| "expected_calls q s d (Suc (Suc n)) =
     CallAskQuestion q s # Sleep d # expected_calls q s d (Suc n)"

text \<open>The events that can follow the upload call within one \<^verbatim>\<open>upload_file\<close>.\<close>

fun later_event :: "event \<Rightarrow> bool" where
  "later_event (FilesUpload p) = False"
| "later_event (CallUploadFile p) = False"
| "later_event (CallAskQuestion q s) = False"
| "later_event e = True"

fun is_files_upload :: "event \<Rightarrow> bool" where
  "is_files_upload (FilesUpload p) = True"
| "is_files_upload e = False"



section \<open>A small world for the examples\<close>

text \<open>
  Three directories: \<^verbatim>\<open>/docs\<close> with three PDF files and a text file, \<^verbatim>\<open>/scans\<close> with a PDF
  whose extension is in capitals, and \<^verbatim>\<open>/locked\<close> whose first PDF cannot be read. The
  remote service accepts every upload and import at once. \<open>demo_digest\<close> stands in for
  SHA-256 in the examples only; every theorem is about an arbitrary digest.
\<close>

definition demo_disk :: filesystem where
  "demo_disk =
     [''/docs'' \<mapsto> Dir True [''a.pdf'', ''notes.txt'', ''b.pdf'', ''c.pdf''],
      ''/docs/a.pdf'' \<mapsto> File True [37, 80, 68, 70],
      ''/docs/notes.txt'' \<mapsto> File True [104, 105],
      ''/docs/b.pdf'' \<mapsto> File True [37, 80, 68, 70, 45],
      ''/docs/c.pdf'' \<mapsto> File True [37, 80, 68, 70, 45, 49],
      ''/scans'' \<mapsto> Dir True [''REPORT.PDF''],
      ''/scans/REPORT.PDF'' \<mapsto> File True [37, 80, 68, 70],
      ''/locked'' \<mapsto> Dir True [''locked.pdf'', ''b.pdf''],
      ''/locked/locked.pdf'' \<mapsto> File False [37, 80, 68, 70],
      ''/locked/b.pdf'' \<mapsto> File True [37, 80, 68, 70]]"

definition demo_digest :: "byte list \<Rightarrow> string" where
  "demo_digest bs = ''digest-'' @ str_nat (length bs)"

definition demo_env :: env where
  "demo_env =
     \<lparr>disk = demo_disk, resolve = (\<lambda>p. p), sha256_hex = demo_digest,
      strftime_now = ''2024-01-01 00:00:00'', write_error = None,
      files_upload = (\<lambda>p. Inr (Obj [(''name'', PStr (''files/'' @ path_name p)),
                                    (''uri'', PStr (''uri://'' @ path_name p)),
                                    (''state'', PStr ''ACTIVE'')] ''File'')),
      files_get = (\<lambda>k n. Inr (Obj [(''name'', n), (''state'', PStr ''ACTIVE'')] ''File'')),
      import_file = (\<lambda>s n. Inr (Obj [(''name'', PStr ''operations/1''),
                                     (''done'', PBool True)] ''Operation'')),
      has_operations = True,
      operations_get = (\<lambda>t n. Inr (Obj [(''name'', n), (''done'', PBool True)] ''Operation''))\<rparr>"

definition demo_state :: fm_state where
  "demo_state =
     \<lparr>tracked_files = Map.empty,
      file_search_store = Some (Obj [(''name'', PStr ''fileSearchStores/sysml'')] ''Store'')\<rparr>"

definition stale_state :: fm_state where
  "stale_state =
     demo_state\<lparr>tracked_files :=
       [''/docs/a.pdf'' \<mapsto> [(''name'', PStr ''files/old''), (''uri'', PStr ''uri://old''),
                               (''hash'', PStr ''digest-3'')]]\<rparr>"

text \<open>For the retry wrapper: a clock that holds about 292 years, and an \<^verbatim>\<open>ask_question\<close> that
  fails at every attempt, each time with its own message.\<close>

definition demo_sleep :: "real \<Rightarrow> exn option" where
  "demo_sleep = time_sleep 9223372036"

definition always_failing :: "nat \<Rightarrow> string \<Rightarrow> pyval \<Rightarrow> exn + string" where
  "always_failing attempt question store_name =
     Inl (Exn APIError (''attempt '' @ str_nat attempt) None)"

definition never_asked :: "nat \<Rightarrow> string \<Rightarrow> pyval \<Rightarrow> exn + string" where
  "never_asked attempt question store_name = Inr ''never asked''"






declare ask_attempts.simps [simp del]
declare import_wait.simps [simp del]
declare read_blocks.simps [simp del]

section \<open>Properties of the validator\<close>

lemma is_file_iff: "is_file fs p \<longleftrightarrow> (\<exists>r bs. fs p = Some (File r bs))"
  by (auto simp: is_file_def split: option.splits node.splits)

lemma st_size_zero_iff:
  "is_file fs p \<Longrightarrow> st_size fs p = 0 \<longleftrightarrow> \<not> (\<exists>r bs. fs p = Some (File r bs) \<and> bs \<noteq> [])"
  by (auto simp: is_file_def st_size_def split: option.splits node.splits)


section \<open>Properties of the retry wrapper\<close>

lemma ask_attempts_done:
  "\<not> int a < m \<Longrightarrow> ask_attempts sleep ask q s m d a l =
     ([], Raised (Exn RuntimeError (''Failed to get response after '' @ str_int m @ '' attempts'') l))"
  by (subst ask_attempts.simps) simp

lemma ask_attempts_ok:
  "int a < m \<Longrightarrow> ask a q s = Inr answer \<Longrightarrow>
   ask_attempts sleep ask q s m d a l = ([CallAskQuestion q s], Returned answer)"
  by (subst ask_attempts.simps) simp

lemma ask_attempts_retry:
  "int a < m - 1 \<Longrightarrow> ask a q s = Inl e \<Longrightarrow> sleep d = None \<Longrightarrow>
   ask_attempts sleep ask q s m d a l =
     (CallAskQuestion q s #
        Log WARNING [Txt ''Attempt '', Num (int a + 1), Txt '' failed: '',
                     Exc e, Txt ''. Retrying in '', Flt d, Txt ''s...''] #
        Sleep d # fst (ask_attempts sleep ask q s m d (Suc a) (Some e)),
      snd (ask_attempts sleep ask q s m d (Suc a) (Some e)))"
  by (subst ask_attempts.simps) (simp add: case_prod_beta)

lemma ask_attempts_sleep_raises:
  "int a < m - 1 \<Longrightarrow> ask a q s = Inl e \<Longrightarrow> sleep d = Some sleep_error \<Longrightarrow>
   ask_attempts sleep ask q s m d a l =
     ([CallAskQuestion q s,
       Log WARNING [Txt ''Attempt '', Num (int a + 1), Txt '' failed: '',
                    Exc e, Txt ''. Retrying in '', Flt d, Txt ''s...'']],
      Raised sleep_error)"
  by (subst ask_attempts.simps) simp

lemma ask_attempts_last:
  "int a = m - 1 \<Longrightarrow> ask a q s = Inl e \<Longrightarrow>
   ask_attempts sleep ask q s m d a l =
     ([CallAskQuestion q s, Log ERROR [Txt ''All '', Num m, Txt '' attempts failed'']],
      Raised (Exn RuntimeError (''Failed to get response after '' @ str_int m @ '' attempts'')
                (Some e)))"
  by (subst ask_attempts.simps) (simp add: ask_attempts_done)

lemma ask_count_le:
  "length (filter is_ask (fst (ask_attempts sleep ask q s m d a l))) \<le> nat (m - int a)"
proof (induction "nat (m - int a)" arbitrary: a l)
  case 0
  then show ?case by (simp add: ask_attempts_done)
next
  case (Suc n)
  then have lt: "int a < m" by linarith
  show ?case
  proof (cases "ask a q s")
    case (Inr answer)
    with lt show ?thesis using Suc.hyps(2) by (simp add: ask_attempts_ok)
  next
    case (Inl e)
    show ?thesis
    proof (cases "int a < m - 1")
      case False
      with lt have "int a = m - 1" by simp
      then show ?thesis using Inl Suc.hyps(2)
        by (simp add: ask_attempts_last[where ask=ask and q=q and s=s])
    next
      case True
      show ?thesis
      proof (cases "sleep d")
        case (Some sleep_error)
        then show ?thesis using True Inl Suc.hyps(2)
          by (simp add: ask_attempts_sleep_raises[where ask=ask and q=q and s=s
                and sleep=sleep])
      next
        case None
        have "n = nat (m - int (Suc a))" using Suc.hyps(2) by linarith
        from Suc.hyps(1)[OF this, of "Some e"] Suc.hyps(2) show ?thesis
          by (simp add: ask_attempts_retry[where ask=ask and q=q and s=s and sleep=sleep,
                OF True Inl None])
      qed
    qed
  qed
qed

lemma ask_first_success:
  "int k < m \<Longrightarrow> a \<le> k \<Longrightarrow> ask k q s = Inr answer \<Longrightarrow>
   (\<And>j. a \<le> j \<Longrightarrow> j < k \<Longrightarrow> \<exists>e. ask j q s = Inl e) \<Longrightarrow>
   k = a \<or> sleep d = None \<Longrightarrow>
   snd (ask_attempts sleep ask q s m d a l) = Returned answer \<and>
   length (filter is_ask (fst (ask_attempts sleep ask q s m d a l))) = Suc (k - a)"
proof (induction "k - a" arbitrary: a l)
  case 0
  then have "a = k" by simp
  with 0 show ?case by (simp add: ask_attempts_ok)
next
  case (Suc n)
  then have ak: "a < k" by linarith
  then obtain e where e: "ask a q s = Inl e" using Suc.prems(4)[of a] by auto
  have sl: "sleep d = None" using ak Suc.prems(5) by auto
  have lt: "int a < m - 1" using ak Suc.prems(1) by linarith
  have n: "n = k - Suc a" using Suc.hyps(2) by linarith
  have IH: "snd (ask_attempts sleep ask q s m d (Suc a) (Some e)) = Returned answer \<and>
    length (filter is_ask (fst (ask_attempts sleep ask q s m d (Suc a) (Some e)))) =
      Suc (k - Suc a)"
    using Suc.hyps(1)[OF n Suc.prems(1) _ Suc.prems(3), of "Some e"] ak Suc.prems(4) sl
    by simp
  show ?case using IH ak
    by (simp add: ask_attempts_retry[where ask=ask and q=q and s=s and sleep=sleep,
          OF lt e sl])
qed

lemma ask_all_fail:
  "int a < m \<Longrightarrow> (\<And>j. a \<le> j \<Longrightarrow> int j < m \<Longrightarrow> \<exists>e. ask j q s = Inl e) \<Longrightarrow>
   int a = m - 1 \<or> sleep d = None \<Longrightarrow>
   unlogged (fst (ask_attempts sleep ask q s m d a l)) = expected_calls q s d (nat m - a) \<and>
   (\<exists>e. ask (nat m - 1) q s = Inl e \<and>
     snd (ask_attempts sleep ask q s m d a l) =
       Raised (Exn RuntimeError (''Failed to get response after '' @ str_int m @ '' attempts'')
                 (Some e)))"
proof (induction "nat m - Suc a" arbitrary: a l)
  case 0
  then have am: "int a = m - 1" by linarith
  obtain e where e: "ask a q s = Inl e" using 0 by blast
  have a1: "nat m - 1 = a" "nat m - a = Suc 0" using am by linarith+
  show ?case using e a1
    by (simp add: ask_attempts_last[where ask=ask and q=q and s=s, OF am e] unlogged_def)
next
  case (Suc n)
  obtain e where e: "ask a q s = Inl e" using Suc by blast
  have lt: "int (Suc a) < m" using Suc.hyps(2) by linarith
  then have lt1: "int a < m - 1" by simp
  have sl: "sleep d = None" using lt1 Suc.prems(3) by auto
  have n: "n = nat m - Suc (Suc a)" using Suc.hyps(2) by linarith
  have IH: "unlogged (fst (ask_attempts sleep ask q s m d (Suc a) (Some e))) =
      expected_calls q s d (nat m - Suc a) \<and>
   (\<exists>e'. ask (nat m - 1) q s = Inl e' \<and>
     snd (ask_attempts sleep ask q s m d (Suc a) (Some e)) =
       Raised (Exn RuntimeError (''Failed to get response after '' @ str_int m @ '' attempts'')
                 (Some e')))"
    using Suc.hyps(1)[OF n lt, of "Some e"] Suc.prems(2) sl by simp
  have "nat m - a = Suc (Suc n)" using Suc.hyps(2) by linarith
  moreover have "nat m - Suc a = Suc n" using Suc.hyps(2) by linarith
  ultimately show ?case using IH
    by (simp add: ask_attempts_retry[where ask=ask and q=q and s=s and sleep=sleep,
          OF lt1 e sl] unlogged_def)
qed

lemma filter_ask_unlogged: "filter is_ask (unlogged evs) = filter is_ask evs"
proof (induction evs)
  case Nil
  show ?case by (simp add: unlogged_def)
next
  case (Cons e evs)
  then show ?case by (cases e) (simp_all add: unlogged_def)
qed

lemma count_expected_calls: "length (filter is_ask (expected_calls q s d n)) = n"
  by (induction q s d n rule: expected_calls.induct) simp_all

lemma time_sleep_returns_iff: "time_sleep limit d = None \<longleftrightarrow> 0 \<le> d \<and> d \<le> limit"
  by (auto simp: time_sleep_def)

lemma demo_sleep_values:
  "demo_sleep 2 = None"
  "demo_sleep (- 1) = Some (Exn ValueError ''sleep length must be non-negative'' None)"
  by (simp_all add: demo_sleep_def time_sleep_def)

text \<open>
  C3, as the code has it. With \<^verbatim>\<open>max_retries\<close> at least 1, \<^verbatim>\<open>ask_with_retry\<close> calls
  \<^verbatim>\<open>ask_question\<close> at most \<^verbatim>\<open>max_retries\<close> times. It returns the first answer it gets,
  provided that answer comes at the first attempt or \<^verbatim>\<open>time.sleep(retry_delay)\<close> returns.
  When every attempt fails, and \<^verbatim>\<open>max_retries\<close> is 1 or \<^verbatim>\<open>time.sleep(retry_delay)\<close> returns,
  it makes exactly \<^verbatim>\<open>max_retries\<close> calls with one sleep of \<^verbatim>\<open>retry_delay\<close> between each two,
  and raises a \<^verbatim>\<open>RuntimeError\<close> whose cause is the exception of the last attempt.
\<close>

theorem ask_with_retry_contract:
  assumes "1 \<le> max_retries"
  shows "length (filter is_ask (fst (ask_with_retry sleep ask q s max_retries d)))
           \<le> nat max_retries
    \<and> (\<forall>k answer. int k < max_retries \<and> ask k q s = Inr answer \<and>
          (\<forall>j<k. \<exists>e. ask j q s = Inl e) \<and> (k = 0 \<or> sleep d = None) \<longrightarrow>
          snd (ask_with_retry sleep ask q s max_retries d) = Returned answer \<and>
          length (filter is_ask (fst (ask_with_retry sleep ask q s max_retries d))) = Suc k)
    \<and> ((\<forall>j. int j < max_retries \<longrightarrow> (\<exists>e. ask j q s = Inl e)) \<and>
        (max_retries = 1 \<or> sleep d = None) \<longrightarrow>
          length (filter is_ask (fst (ask_with_retry sleep ask q s max_retries d))) =
            nat max_retries \<and>
          unlogged (fst (ask_with_retry sleep ask q s max_retries d)) =
            expected_calls q s d (nat max_retries) \<and>
          (\<exists>e. ask (nat max_retries - 1) q s = Inl e \<and>
             snd (ask_with_retry sleep ask q s max_retries d) =
               Raised (Exn RuntimeError
                 (''Failed to get response after '' @ str_int max_retries @ '' attempts'')
                 (Some e))))"
proof -
  let ?run = "ask_attempts sleep ask q s max_retries d 0 None"
  have bound: "length (filter is_ask (fst ?run)) \<le> nat max_retries"
    using ask_count_le[of sleep ask q s max_retries d 0 None] by simp
  have first: "snd ?run = Returned answer \<and> length (filter is_ask (fst ?run)) = Suc k"
    if "int k < max_retries" "ask k q s = Inr answer" "\<forall>j<k. \<exists>e. ask j q s = Inl e"
      "k = 0 \<or> sleep d = None"
    for k answer
    using ask_first_success[where ask=ask and q=q and s=s and a=0 and k=k and m=max_retries
        and answer=answer and d=d and l=None and sleep=sleep] that by simp
  have none: "length (filter is_ask (fst ?run)) = nat max_retries \<and>
      unlogged (fst ?run) = expected_calls q s d (nat max_retries) \<and>
      (\<exists>e. ask (nat max_retries - 1) q s = Inl e \<and>
         snd ?run = Raised (Exn RuntimeError
            (''Failed to get response after '' @ str_int max_retries @ '' attempts'') (Some e)))"
    if all: "\<forall>j. int j < max_retries \<longrightarrow> (\<exists>e. ask j q s = Inl e)"
      and sl: "max_retries = 1 \<or> sleep d = None"
  proof -
    have lt: "int 0 < max_retries" using assms by simp
    have sl0: "int 0 = max_retries - 1 \<or> sleep d = None" using sl by auto
    have af: "unlogged (fst ?run) = expected_calls q s d (nat max_retries - 0) \<and>
      (\<exists>e. ask (nat max_retries - 1) q s = Inl e \<and>
         snd ?run = Raised (Exn RuntimeError
            (''Failed to get response after '' @ str_int max_retries @ '' attempts'') (Some e)))"
      using ask_all_fail[where ask=ask and q=q and s=s and a=0 and m=max_retries and d=d
          and l=None and sleep=sleep, OF lt _ sl0] all by blast
    have "length (filter is_ask (fst ?run)) = length (filter is_ask (unlogged (fst ?run)))"
      by (simp add: filter_ask_unlogged)
    also have "\<dots> = nat max_retries" using af by (simp add: count_expected_calls)
    finally show ?thesis using af by simp
  qed
  show ?thesis unfolding ask_with_retry_def using bound first none by blast
qed

theorem ask_with_retry_contract_witness:
  "(1::int) \<le> 3 \<and>
   length (filter is_ask
     (fst (ask_with_retry demo_sleep always_failing ''What is SysML?'' PNone 3 2))) = 3 \<and>
   unlogged (fst (ask_with_retry demo_sleep always_failing ''What is SysML?'' PNone 3 2)) =
     [CallAskQuestion ''What is SysML?'' PNone, Sleep 2,
      CallAskQuestion ''What is SysML?'' PNone, Sleep 2,
      CallAskQuestion ''What is SysML?'' PNone] \<and>
   snd (ask_with_retry demo_sleep always_failing ''What is SysML?'' PNone 3 2) =
     Raised (Exn RuntimeError ''Failed to get response after 3 attempts''
               (Some (Exn APIError ''attempt 2'' None)))"
  using ask_with_retry_contract[of 3 demo_sleep always_failing "''What is SysML?''" PNone 2]
  by (simp add: str_int_def str_nat.simps numeral_3_eq_3 always_failing_def
      demo_sleep_values)

text \<open>
  With a negative \<^verbatim>\<open>retry_delay\<close> the contract as the specification words it fails: of three
  attempts that would all fail only the first is made, no sleep takes place, and the
  \<^verbatim>\<open>ValueError\<close> of \<^verbatim>\<open>time.sleep\<close> is raised in place of the \<^verbatim>\<open>RuntimeError\<close>.
\<close>

theorem ask_with_retry_negative_delay_counterexample:
  "ask_with_retry demo_sleep always_failing ''What is SysML?'' PNone 3 (- 1) =
     ([CallAskQuestion ''What is SysML?'' PNone,
       Log WARNING [Txt ''Attempt '', Num 1, Txt '' failed: '',
                    Exc (Exn APIError ''attempt 0'' None),
                    Txt ''. Retrying in '', Flt (- 1), Txt ''s...'']],
      Raised (Exn ValueError ''sleep length must be non-negative'' None))"
  unfolding ask_with_retry_def
  by (simp add: ask_attempts_sleep_raises[where e="Exn APIError ''attempt 0'' None"]
      always_failing_def demo_sleep_values str_nat.simps)

text \<open>
  C9. With \<^verbatim>\<open>max_retries\<close> zero or negative, \<^verbatim>\<open>ask_with_retry\<close> raises the \<^verbatim>\<open>RuntimeError\<close>
  at once: no call of \<^verbatim>\<open>ask_question\<close>, no event at all, and no cause.
\<close>

theorem ask_with_retry_no_attempts:
  "max_retries \<le> 0 \<Longrightarrow>
   ask_with_retry sleep ask q s max_retries d =
     ([], Raised (Exn RuntimeError
                    (''Failed to get response after '' @ str_int max_retries @ '' attempts'')
                    None))"
  unfolding ask_with_retry_def by (simp add: ask_attempts_done)

theorem ask_with_retry_no_attempts_witness:
  "(0::int) \<le> 0 \<and>
   ask_with_retry demo_sleep never_asked ''What is SysML?'' PNone 0 2 =
     ([], Raised (Exn RuntimeError ''Failed to get response after 0 attempts'' None))"
  using ask_with_retry_no_attempts[of 0 demo_sleep never_asked "''What is SysML?''" PNone 2]
  by (simp add: str_int_def str_nat.simps)

section \<open>Properties of the tracking store and of uploads\<close>

lemma sleep_total_append: "sleep_total (xs @ ys) = sleep_total xs + sleep_total ys"
  by (induction xs rule: sleep_total.induct) simp_all

lemma wait_processing_later: "list_all later_event (fst (wait_processing fuel E k uf s))"
proof (induction fuel arbitrary: k uf s)
  case 0
  show ?case by simp
next
  case (Suc fuel)
  show ?case using Suc.IH
    by (auto simp: case_prod_beta split: sum.splits)
qed

lemma import_wait_later: "list_all later_event (fst (import_wait E nm w operation))"
proof (induction E nm w operation rule: import_wait.induct)
  case (1 E nm w operation)
  show ?case
    apply (subst import_wait.simps)
    using 1
    by (auto simp: case_prod_beta import_failed_log_def split: loop_ctl.splits sum.splits)
qed



lemma import_into_store_later: "list_all later_event (fst (import_into_store E store uf))"
  using import_wait_later
  by (auto simp: import_into_store_def Let_def import_failed_log_def case_prod_beta
      split: option.splits sum.splits)

lemma track_file_later: "list_all later_event (fst (track_file E st p uf))"
  by (auto simp: track_file_def Let_def save_tracking_def split: option.splits sum.splits)

lemma upload_and_track_events:
  "\<exists>rest. fst (upload_and_track fuel E st p) =
      Log INFO [Txt ''Uploading file: '', Txt (path_name p)] # FilesUpload p # rest \<and>
      list_all later_event rest"
proof (cases "files_upload E p")
  case (Inl e)
  then show ?thesis by (simp add: upload_and_track_def)
next
  case (Inr uf0)
  then show ?thesis
    using wait_processing_later import_into_store_later track_file_later
    by (auto simp: upload_and_track_def Let_def case_prod_beta split: outcome.splits)
qed

lemma upload_file_untracked_events:
  assumes "fst (validate_pdf_file (disk E) p)" "is_file_tracked E st p = Inr False"
  shows "\<exists>rest. fst (upload_file fuel E st p) =
      Log INFO [Txt ''Uploading file: '', Txt (path_name p)] # FilesUpload p # rest \<and>
      list_all later_event rest"
proof -
  obtain rest where r: "fst (upload_and_track fuel E st p) =
      Log INFO [Txt ''Uploading file: '', Txt (path_name p)] # FilesUpload p # rest"
      "list_all later_event rest"
    using upload_and_track_events by blast
  obtain b m where v: "validate_pdf_file (disk E) p = (b, m)" by (cases "validate_pdf_file (disk E) p")
  with assms(1) have b by simp
  obtain evs st' out where u: "upload_and_track fuel E st p = (evs, st', out)"
    by (cases "upload_and_track fuel E st p") auto
  show ?thesis using r u v \<open>b\<close> assms(2)
    by (cases out) (auto simp: upload_file_def)
qed

lemma is_file_tracked_True_iff:
  "is_file_tracked E st p = Inr True \<longleftrightarrow>
     (\<exists>ent h. tracked_files st (resolve E p) = Some ent \<and> compute_file_hash E p = Inr h \<and>
              dict_get ent ''hash'' = PStr h)"
  by (auto simp: is_file_tracked_def Let_def split: sum.splits option.splits)

text \<open>
  C1. \<^verbatim>\<open>_is_file_tracked\<close> returns \<^verbatim>\<open>True\<close> exactly when the store has an entry under the
  resolved path and the hash stored there is the hash just computed from the file. When
  a valid file's hash differs from the stored one, \<^verbatim>\<open>_is_file_tracked\<close> returns \<^verbatim>\<open>False\<close>
  and \<^verbatim>\<open>upload_file\<close> starts with the remote upload instead of answering from the store.
\<close>

theorem is_file_tracked_iff_hash_matches:
  "(is_file_tracked E st p = Inr True \<longleftrightarrow>
      (\<exists>ent h. tracked_files st (resolve E p) = Some ent \<and> compute_file_hash E p = Inr h \<and>
               dict_get ent ''hash'' = PStr h))
   \<and> (\<forall>ent h. fst (validate_pdf_file (disk E) p) \<and>
          tracked_files st (resolve E p) = Some ent \<and> compute_file_hash E p = Inr h \<and>
          dict_get ent ''hash'' \<noteq> PStr h \<longrightarrow>
          is_file_tracked E st p = Inr False \<and>
          take 2 (fst (upload_file fuel E st p)) =
            [Log INFO [Txt ''Uploading file: '', Txt (path_name p)], FilesUpload p])"
proof (intro conjI allI impI)
  show "is_file_tracked E st p = Inr True \<longleftrightarrow>
      (\<exists>ent h. tracked_files st (resolve E p) = Some ent \<and> compute_file_hash E p = Inr h \<and>
               dict_get ent ''hash'' = PStr h)"
    by (rule is_file_tracked_True_iff)
next
  fix ent h
  assume a: "fst (validate_pdf_file (disk E) p) \<and>
          tracked_files st (resolve E p) = Some ent \<and> compute_file_hash E p = Inr h \<and>
          dict_get ent ''hash'' \<noteq> PStr h"
  then show f: "is_file_tracked E st p = Inr False"
    by (simp add: is_file_tracked_def)
  show "take 2 (fst (upload_file fuel E st p)) =
            [Log INFO [Txt ''Uploading file: '', Txt (path_name p)], FilesUpload p]"
    using upload_file_untracked_events[OF _ f, of fuel] a by auto
qed

lemma upload_file_events_kinds:
  "e \<in> set (fst (upload_file fuel E st p)) \<Longrightarrow> later_event e \<or> e = FilesUpload p"
proof -
  assume e: "e \<in> set (fst (upload_file fuel E st p))"
  obtain rest where r: "fst (upload_and_track fuel E st p) =
      Log INFO [Txt ''Uploading file: '', Txt (path_name p)] # FilesUpload p # rest"
      "list_all later_event rest"
    using upload_and_track_events by blast
  obtain evs st' out where u: "upload_and_track fuel E st p = (evs, st', out)"
    by (cases "upload_and_track fuel E st p") auto
  obtain b m where v: "validate_pdf_file (disk E) p = (b, m)"
    by (cases "validate_pdf_file (disk E) p")
  show ?thesis using e r u v
    by (cases out)
      (auto simp: upload_file_def Let_def list_all_iff
        split: bool.splits sum.splits option.splits)
qed

lemma upload_each_calls:
  "CallUploadFile q \<in> set (fst (upload_each fuel E st files acc)) \<Longrightarrow> q \<in> set files"
proof (induction files arbitrary: st acc)
  case Nil
  then show ?case by simp
next
  case (Cons f files)
  obtain evs st' out where u: "upload_file fuel E st f = (evs, st', out)"
    by (cases "upload_file fuel E st f") auto
  have no: "CallUploadFile q \<notin> set evs"
    using upload_file_events_kinds[of "CallUploadFile q" fuel E st f] u by auto
  show ?case
  proof (cases out)
    case (Returned result)
    with Cons.prems u no show ?thesis
      using Cons.IH[of st' "case result of None \<Rightarrow> acc | Some d \<Rightarrow> acc @ [d]"]
      by (auto simp: case_prod_beta)
  qed (use Cons.prems u no in auto)
qed

lemma upload_directory_calls:
  "CallUploadFile q \<in> set (fst (upload_directory fuel E st d)) \<Longrightarrow>
   q \<in> set (glob_pdf (disk E) d)"
proof -
  assume c: "CallUploadFile q \<in> set (fst (upload_directory fuel E st d))"
  obtain b m where v: "validate_directory (disk E) d = (b, m)"
    by (cases "validate_directory (disk E) d")
  obtain evs st' out where u: "upload_each fuel E st (glob_pdf (disk E) d) [] = (evs, st', out)"
    by (cases "upload_each fuel E st (glob_pdf (disk E) d) []") auto
  have "CallUploadFile q \<in> set evs"
    using c v u by (cases out; cases b) (auto simp: upload_directory_def Let_def split: if_splits)
  then show ?thesis using upload_each_calls[of q fuel E st "glob_pdf (disk E) d" "[]"] u by simp
qed

lemma glob_pdf_names:
  "q \<in> set (glob_pdf fs d) \<Longrightarrow> \<exists>n. q = path_join d n \<and> ends_with ''.pdf'' n"
  by (auto simp: glob_pdf_def split: option.splits node.splits bool.splits)

lemma path_join_inject: "path_join d n = path_join d n' \<Longrightarrow> n = n'"
  by (simp add: path_join_def)

lemma path_name_join: "CHR ''/'' \<notin> set n \<Longrightarrow> path_name (path_join d n) = n"
proof -
  assume n: "CHR ''/'' \<notin> set n"
  have "takeWhile (\<lambda>c. c \<noteq> CHR ''/'') (rev n @ CHR ''/'' # rev d) = rev n"
    using n by (auto simp: takeWhile_tail)
  then show ?thesis by (simp add: path_name_def path_join_def)
qed

text \<open>
  C10. \<^verbatim>\<open>upload_directory\<close> calls \<^verbatim>\<open>upload_file\<close> only on entries of the directory whose name
  ends in \<^verbatim>\<open>.pdf\<close> in lower case. An entry whose name does not end so, such as one ending in
  \<^verbatim>\<open>.PDF\<close>, is never passed to \<^verbatim>\<open>upload_file\<close>, although \<^verbatim>\<open>validate_pdf_file\<close> accepts it
  when it is a non-empty regular file whose extension is \<^verbatim>\<open>.pdf\<close> up to case.
\<close>

theorem upload_directory_skips_uppercase_extension:
  "(\<forall>q. CallUploadFile q \<in> set (fst (upload_directory fuel E st d)) \<longrightarrow>
        (\<exists>n. q = path_join d n \<and> ends_with ''.pdf'' n))
   \<and> (\<forall>n. \<not> ends_with ''.pdf'' n \<longrightarrow>
        CallUploadFile (path_join d n) \<notin> set (fst (upload_directory fuel E st d)))
   \<and> (\<forall>n r bs. CHR ''/'' \<notin> set n \<and> lower (name_suffix n) = ''.pdf'' \<and>
         disk E (path_join d n) = Some (File r bs) \<and> bs \<noteq> [] \<longrightarrow>
         fst (validate_pdf_file (disk E) (path_join d n)))"
proof (intro conjI allI impI)
  fix q
  assume "CallUploadFile q \<in> set (fst (upload_directory fuel E st d))"
  then have "q \<in> set (glob_pdf (disk E) d)" by (rule upload_directory_calls)
  then show "\<exists>n. q = path_join d n \<and> ends_with ''.pdf'' n" by (rule glob_pdf_names)
next
  fix n
  assume n: "\<not> ends_with ''.pdf'' n"
  show "CallUploadFile (path_join d n) \<notin> set (fst (upload_directory fuel E st d))"
  proof
    assume "CallUploadFile (path_join d n) \<in> set (fst (upload_directory fuel E st d))"
    then have "path_join d n \<in> set (glob_pdf (disk E) d)" by (rule upload_directory_calls)
    then obtain n' where "path_join d n = path_join d n'" "ends_with ''.pdf'' n'"
      using glob_pdf_names by blast
    with n show False using path_join_inject by blast
  qed
next
  fix n r bs
  assume a: "CHR ''/'' \<notin> set n \<and> lower (name_suffix n) = ''.pdf'' \<and>
         disk E (path_join d n) = Some (File r bs) \<and> bs \<noteq> []"
  then show "fst (validate_pdf_file (disk E) (path_join d n))"
    by (simp add: validate_pdf_file_def path_exists_def is_file_def st_size_def path_suffix_def
        path_name_join)
qed

lemma concat_read_blocks: "0 < n \<Longrightarrow> concat (read_blocks n bs) = bs"
proof (induction n bs rule: read_blocks.induct)
  case (1 n bs)
  show ?case
  proof (cases "bs = []")
    case True
    then show ?thesis by (subst read_blocks.simps) simp
  next
    case False
    with 1 show ?thesis by (subst read_blocks.simps) simp
  qed
qed

lemma compute_file_hash_whole:
  "compute_file_hash E p =
     (case disk E p of
        Some (File True bs) \<Rightarrow> Inr (sha256_hex E bs)
      | _ \<Rightarrow> Inl (Exn OSError p None))"
  by (simp add: compute_file_hash_def concat_read_blocks
      split: option.splits node.splits bool.splits)

lemma demo_disk_docs:
  "demo_disk ''/docs'' = Some (Dir True [''a.pdf'', ''notes.txt'', ''b.pdf'', ''c.pdf''])"
  "demo_disk ''/docs/a.pdf'' = Some (File True [37, 80, 68, 70])"
  "demo_disk ''/docs/b.pdf'' = Some (File True [37, 80, 68, 70, 45])"
  "demo_disk ''/docs/c.pdf'' = Some (File True [37, 80, 68, 70, 45, 49])"
  by (simp_all add: demo_disk_def)

lemma demo_disk_scans:
  "demo_disk ''/scans'' = Some (Dir True [''REPORT.PDF''])"
  "demo_disk ''/scans/REPORT.PDF'' = Some (File True [37, 80, 68, 70])"
  by (simp_all add: demo_disk_def)

lemma demo_disk_locked:
  "demo_disk ''/locked'' = Some (Dir True [''locked.pdf'', ''b.pdf''])"
  "demo_disk ''/locked/locked.pdf'' = Some (File False [37, 80, 68, 70])"
  "demo_disk ''/locked/b.pdf'' = Some (File True [37, 80, 68, 70])"
  by (simp_all add: demo_disk_def)

lemma demo_env_fields:
  "disk demo_env = demo_disk" "resolve demo_env p = p" "sha256_hex demo_env = demo_digest"
  by (simp_all add: demo_env_def)

lemmas path_eval = path_suffix_def path_name_def name_suffix_def lower_def lower_char_def
  path_exists_def is_file_def st_size_def

theorem is_file_tracked_iff_hash_matches_witness:
  "is_file_tracked demo_env stale_state ''/docs/a.pdf'' = Inr False \<and>
   take 2 (fst (upload_file 0 demo_env stale_state ''/docs/a.pdf'')) =
     [Log INFO [Txt ''Uploading file: '', Txt ''a.pdf''], FilesUpload ''/docs/a.pdf'']"
proof -
  let ?ent = "[(''name'', PStr ''files/old''), (''uri'', PStr ''uri://old''),
               (''hash'', PStr ''digest-3'')]"
  have v: "fst (validate_pdf_file (disk demo_env) ''/docs/a.pdf'')"
    by (simp add: validate_pdf_file_def demo_env_fields demo_disk_docs path_eval)
  have t: "tracked_files stale_state (resolve demo_env ''/docs/a.pdf'') = Some ?ent"
    by (simp add: stale_state_def demo_env_fields)
  have h: "compute_file_hash demo_env ''/docs/a.pdf'' = Inr ''digest-4''"
    by (simp add: compute_file_hash_whole demo_env_fields demo_disk_docs demo_digest_def
        str_nat.simps)
  have d: "dict_get ?ent ''hash'' \<noteq> PStr ''digest-4''"
    by (simp add: dict_get_def)
  have n: "path_name ''/docs/a.pdf'' = ''a.pdf''" by (simp add: path_name_def)
  show ?thesis
    using is_file_tracked_iff_hash_matches[of demo_env stale_state "''/docs/a.pdf''" 0] v t h d n
    by simp
qed

theorem upload_directory_skips_uppercase_extension_witness:
  "\<not> ends_with ''.pdf'' ''REPORT.PDF'' \<and>
   CallUploadFile ''/scans/REPORT.PDF'' \<notin> set (fst (upload_directory 0 demo_env demo_state ''/scans'')) \<and>
   fst (validate_pdf_file (disk demo_env) ''/scans/REPORT.PDF'')"
proof -
  have e: "\<not> ends_with ''.pdf'' ''REPORT.PDF''" by (simp add: ends_with_def)
  have j: "path_join ''/scans'' ''REPORT.PDF'' = ''/scans/REPORT.PDF''"
    by (simp add: path_join_def)
  have s: "CHR ''/'' \<notin> set ''REPORT.PDF''" "lower (name_suffix ''REPORT.PDF'') = ''.pdf''"
    by (simp_all add: path_eval)
  have f: "disk demo_env ''/scans/REPORT.PDF'' = Some (File True [37, 80, 68, 70])"
    by (simp add: demo_env_fields demo_disk_scans)
  show ?thesis
    using upload_directory_skips_uppercase_extension[where d="''/scans''" and fuel=0
        and E=demo_env and st=demo_state]
      e j s f
    by (metis list.distinct(1))
qed

section \<open>The second upload and the import wait\<close>

















lemmas model_eval = upload_file_def upload_and_track_def first_file_state_def
  import_into_store_def track_file_def save_tracking_def is_file_tracked_def
  compute_file_hash_whole validate_pdf_file_def check_operation_def
  hasattr_def getattr_def attr_def truthy_def py_or_def dict_get_def dict_item_def
  path_eval demo_digest_def str_nat.simps Let_def






text \<open>The directory of the specification's example: three PDF files and a text file. The
  three are uploaded in listing order and the summary counts 3 of 3.\<close>

lemma upload_directory_three_of_four:
  "snd (snd (upload_directory 0 demo_env demo_state ''/docs'')) =
     Returned [[(''name'', PStr ''files/a.pdf''), (''uri'', PStr ''uri://a.pdf'')],
               [(''name'', PStr ''files/b.pdf''), (''uri'', PStr ''uri://b.pdf'')],
               [(''name'', PStr ''files/c.pdf''), (''uri'', PStr ''uri://c.pdf'')]] \<and>
   filter is_files_upload (fst (upload_directory 0 demo_env demo_state ''/docs'')) =
     [FilesUpload ''/docs/a.pdf'', FilesUpload ''/docs/b.pdf'', FilesUpload ''/docs/c.pdf''] \<and>
   last (fst (upload_directory 0 demo_env demo_state ''/docs'')) =
     Log INFO [Txt ''Successfully uploaded '', Num 3, Txt ''/'', Num 3, Txt '' file(s)'']"
  by (simp add: upload_directory_def validate_directory_def is_dir_def access_R_OK_def
      glob_pdf_def ends_with_def path_join_def model_eval demo_env_def demo_disk_docs
      demo_state_def import_wait.simps[of _ _ 0])

section \<open>Where exceptions escape\<close>

lemma upload_file_unreadable:
  assumes "disk E p = Some (File False bs)" "bs \<noteq> []" "lower (path_suffix p) = ''.pdf''"
  shows "upload_file fuel E st p = ([], st, Raised (Exn OSError p None))"
  using assms
  by (simp add: upload_file_def validate_pdf_file_def path_exists_def is_file_def st_size_def
      is_file_tracked_def compute_file_hash_def)

lemma locked_pdf:
  "disk (E\<lparr>disk := demo_disk\<rparr>) ''/locked/locked.pdf'' = Some (File False [37, 80, 68, 70])"
  "lower (path_suffix ''/locked/locked.pdf'') = ''.pdf''"
  by (simp_all add: demo_disk_locked path_eval)

text \<open>An exception leaves \<^verbatim>\<open>upload_file\<close> only from the tracking check of lines 148--154,
  which stands before the \<^verbatim>\<open>try\<close>; the batch loop raises only what an \<^verbatim>\<open>upload_file\<close> raised;
  and \<^verbatim>\<open>_load_tracking\<close> raises only what its \<^verbatim>\<open>except\<close> clause does not name.\<close>

lemma upload_file_raises_only_before_try:
  assumes "snd (snd (upload_file fuel E st p)) = Raised e"
  shows "is_file_tracked E st p = Inl e \<or>
         (is_file_tracked E st p = Inr True \<and> exn_class e = KeyError)"
proof -
  obtain b m where v: "validate_pdf_file (disk E) p = (b, m)"
    by (cases "validate_pdf_file (disk E) p")
  obtain evs st' out where u: "upload_and_track fuel E st p = (evs, st', out)"
    by (cases "upload_and_track fuel E st p") auto
  show ?thesis using assms v u
    by (cases b; cases out)
      (auto simp: upload_file_def Let_def dict_item_def
        split: sum.splits bool.splits option.splits)
qed

lemma upload_each_raises_only_from_upload_file:
  "snd (snd (upload_each fuel E st files acc)) = Raised e \<Longrightarrow>
   \<exists>f st0. f \<in> set files \<and> snd (snd (upload_file fuel E st0 f)) = Raised e"
proof (induction files arbitrary: st acc)
  case Nil
  then show ?case by simp
next
  case (Cons f files)
  obtain evs st' out where u: "upload_file fuel E st f = (evs, st', out)"
    by (cases "upload_file fuel E st f") auto
  show ?case
  proof (cases out)
    case (Returned result)
    with Cons.prems u have
      "snd (snd (upload_each fuel E st' files
         (case result of None \<Rightarrow> acc | Some d \<Rightarrow> acc @ [d]))) = Raised e"
      by (simp add: case_prod_beta)
    from Cons.IH[OF this] show ?thesis by auto
  next
    case (Raised e')
    with Cons.prems u have "e' = e" by simp
    with Raised u have "snd (snd (upload_file fuel E st f)) = Raised e" by simp
    then show ?thesis by auto
  next
    case StillProcessing
    with Cons.prems u show ?thesis by simp
  qed
qed

lemma load_tracking_handled:
  "load_tracking Absent = ([], Returned Map.empty)"
  "load_tracking (Present (Inr data)) = ([], Returned data)"
  "exn_class e \<in> set [JSONDecodeError, OSError] \<Longrightarrow>
   load_tracking (Present (Inl e)) =
     ([Log WARNING [Txt ''Failed to load tracking file: '', Exc e, Txt ''. Starting fresh.'']],
      Returned Map.empty)"
  by (simp_all add: load_tracking_def)

lemma load_tracking_raises_only_unhandled:
  "snd (load_tracking tf) = Raised e \<Longrightarrow>
   tf = Present (Inl e) \<and> exn_class e \<notin> set [JSONDecodeError, OSError]"
  by (auto simp: load_tracking_def split: tracking_file.splits sum.splits if_splits)

text \<open>
  C2. The specification has \<^verbatim>\<open>upload_file\<close> never let an exception out. The hash of line
  148 is computed before the \<^verbatim>\<open>try\<close> of line 156: on a non-empty \<^verbatim>\<open>.pdf\<close> file that cannot be
  opened for reading, \<^verbatim>\<open>upload_file\<close> raises the \<^verbatim>\<open>OSError\<close> of \<^verbatim>\<open>open\<close>, logs nothing and
  returns nothing.
\<close>

theorem upload_file_raises_on_unreadable_file:
  "upload_file fuel (E\<lparr>disk := demo_disk\<rparr>) st ''/locked/locked.pdf'' =
     ([], st, Raised (Exn OSError ''/locked/locked.pdf'' None))"
  by (rule upload_file_unreadable[OF locked_pdf(1) _ locked_pdf(2)]) simp

text \<open>
  C6. The specification has \<^verbatim>\<open>_load_tracking\<close> never raise. It catches \<^verbatim>\<open>JSONDecodeError\<close> and
  \<^verbatim>\<open>IOError\<close> only: on a tracking file whose bytes are not text in the default encoding,
  the \<^verbatim>\<open>UnicodeDecodeError\<close> of reading it is raised to the caller, with no warning logged.
\<close>

theorem load_tracking_raises_on_undecodable_file:
  "load_tracking (Present (Inl (Exn UnicodeDecodeError ''invalid start byte'' None))) =
     ([], Raised (Exn UnicodeDecodeError ''invalid start byte'' None))"
  by (simp add: load_tracking_def)

text \<open>
  C8. The specification has one file's failure never abort the batch. In \<^verbatim>\<open>/locked\<close> the
  first PDF cannot be read and the second is valid: \<^verbatim>\<open>upload_directory\<close> raises at the first
  and never calls \<^verbatim>\<open>upload_file\<close> on the second.
\<close>

theorem upload_directory_aborts_on_unreadable_file:
  "upload_directory fuel (E\<lparr>disk := demo_disk\<rparr>) st ''/locked'' =
     ([Log INFO [Txt ''Found '', Num 2, Txt '' PDF file(s) in '', Txt ''/locked''],
       CallUploadFile ''/locked/locked.pdf''],
      st, Raised (Exn OSError ''/locked/locked.pdf'' None))"
proof -
  have u: "upload_file fuel (E\<lparr>disk := demo_disk\<rparr>) st ''/locked/locked.pdf'' =
     ([], st, Raised (Exn OSError ''/locked/locked.pdf'' None))"
    by (rule upload_file_unreadable[OF locked_pdf(1) _ locked_pdf(2)]) simp
  show ?thesis
    by (simp add: upload_directory_def validate_directory_def path_exists_def is_dir_def
        access_R_OK_def glob_pdf_def ends_with_def path_join_def u demo_disk_locked)
qed

end
